theory Spec2Isabelle
  imports Main "HOL-Library.Word"
begin

chapter \<open>The driver\<close>

section \<open>Values, exceptions and effects\<close>

type_synonym byte = "8 word"

text \<open>
  The values a caller can pass to \<open>_sendCommand\<close>, told apart the way the
  method does with \<open>type(arg) is ...\<close>. A Python \<open>str\<close> is kept as its UTF-8
  text (one \<open>char\<close> per byte), which is all the driver ever uses of it. A
  value of any other type is kept as the text \<open>str(arg)\<close> gives for it; for a
  \<open>bool\<close> that text is computed by \<open>str_bool\<close>.
\<close>

datatype pyval =
    PyBytes "byte list"
  | PyInt int
  | PyBool bool
  | PyNone
  | PyStr string
  | PyOther string

datatype exn =
    OSError string
  | OverflowError
  | ValueError
  | IndexError
  | AttributeError
  | Raised string

text \<open>
  \<open>n.to_bytes(1, "big")\<close>: one byte for 0..255, and OverflowError outside
  that range, as on the host; no property below rests on what a negative
  argument gives.
\<close>

definition to_bytes1 :: "int \<Rightarrow> exn + byte list" where
  "to_bytes1 n = (if 0 \<le> n \<and> n \<le> 255 then Inr [word_of_int n] else Inl OverflowError)"

text \<open>\<open>s.encode("utf-8")\<close> on a text held as UTF-8.\<close>

definition encode_utf8 :: "string \<Rightarrow> byte list" where
  "encode_utf8 s = map (\<lambda>c. of_nat (of_char c)) s"

definition str_bool :: "bool \<Rightarrow> string" where
  "str_bool b = (if b then ''True'' else ''False'')"

section \<open>The command encoder\<close>

text \<open>
  The last branch of the loop of \<open>_sendCommand\<close>, once the argument is a
  text: the UTF-8 bytes and the byte \<open>int(0).to_bytes(1, "big")\<close> are appended.
\<close>

definition sendCommand_text :: "byte list \<Rightarrow> string \<Rightarrow> exn + byte list" where
  "sendCommand_text command arg =
     (case to_bytes1 0 of
        Inl e \<Rightarrow> Inl e
      | Inr z \<Rightarrow> Inr (command @ (encode_utf8 arg @ z)))"

text \<open>
  One turn of the loop of \<open>_sendCommand\<close>: the command bytes so far and one
  argument give the extended command, or the exception \<open>to_bytes\<close> raises.
\<close>

fun sendCommand_arg :: "byte list \<Rightarrow> pyval \<Rightarrow> exn + byte list" where
  "sendCommand_arg command (PyBytes arg) = Inr (command @ arg)"
| "sendCommand_arg command (PyInt arg) =
     (let (command1, arg1) =
            (if arg \<ge> 255 then (command @ [0xFF], arg - 255) else (command, arg))
      in case to_bytes1 arg1 of
           Inl e \<Rightarrow> Inl e
         | Inr b \<Rightarrow> Inr (command1 @ b))"
| "sendCommand_arg command PyNone = Inr command"
| "sendCommand_arg command (PyStr arg) = sendCommand_text command arg"
| "sendCommand_arg command (PyBool arg) = sendCommand_text command (str_bool arg)"
| "sendCommand_arg command (PyOther arg) = sendCommand_text command arg"

fun sendCommand_args :: "byte list \<Rightarrow> pyval list \<Rightarrow> exn + byte list" where
  "sendCommand_args command [] = Inr command"
| "sendCommand_args command (arg # args) =
     (case sendCommand_arg command arg of
        Inl e \<Rightarrow> Inl e
      | Inr command1 \<Rightarrow> sendCommand_args command1 args)"

section \<open>The display object and its surroundings\<close>

text \<open>
  What the driver does to the outside, in the order it does it: calls of
  \<open>i2c.writeto\<close> and \<open>i2c.readfrom\<close>, \<open>sleep_ms\<close>, and what it prints.
\<close>

datatype effect =
    Writeto nat "byte list"
  | Readfrom nat nat
  | Sleep_ms int
  | Print_bytes "byte list"
  | Print_text string

text \<open>An \<open>io.BytesIO\<close>: its contents and the position of the next read or write.\<close>

record bytesio =
  getvalue :: "byte list"
  tell :: nat

datatype EventCode = CLICK | ANALOG | TEMP | VOLTAGE

text \<open>
  The fields of \<open>DigolePrimitive\<close> and \<open>DigoleDisplay\<close>, followed by the
  surroundings the object talks to. The bus, the clock and the file system are
  not the driver's: the \<open>k\<close>-th call of \<open>writeto\<close> raises \<open>OSError(m)\<close>
  when \<open>writeto_raises k = Some m\<close>, the \<open>k\<close>-th call of \<open>readfrom\<close>
  raises \<open>OSError(m)\<close> or returns the bytes \<open>readfrom_gives k\<close> says, the
  \<open>k\<close>-th call of \<open>getTicks_ms\<close> returns \<open>ticks k\<close> (milliseconds, without
  the wrap-around of the micro-controller's counter), and \<open>files\<close> holds the
  contents of the files that exist.
\<close>

record display =
  address :: nat
  dataDelay :: int
  paperTrail :: "bytesio option"
  debug :: bool
  waitBuffer :: "(EventCode \<times> nat \<times> int) list"
  inBuffer :: "int list"
  effects :: "effect list"
  writeto_raises :: "nat \<Rightarrow> string option"
  writeto_calls :: nat
  readfrom_gives :: "nat \<Rightarrow> string + byte list"
  readfrom_calls :: nat
  ticks :: "nat \<Rightarrow> int"
  ticks_calls :: nat
  files :: "string \<Rightarrow> byte list option"

text \<open>
  \<open>__init__\<close> of \<open>DigoleDisplay\<close>, given the address and the surroundings.
\<close>

definition init ::
  "nat \<Rightarrow> (nat \<Rightarrow> string option) \<Rightarrow> (nat \<Rightarrow> string + byte list) \<Rightarrow> (nat \<Rightarrow> int) \<Rightarrow>
   (string \<Rightarrow> byte list option) \<Rightarrow> display" where
  "init addr w r t fs =
     \<lparr>address = addr, dataDelay = 5, paperTrail = None, debug = False,
      waitBuffer = [], inBuffer = [], effects = [],
      writeto_raises = w, writeto_calls = 0,
      readfrom_gives = r, readfrom_calls = 0,
      ticks = t, ticks_calls = 0, files = fs\<rparr>"

definition emit :: "effect \<Rightarrow> display \<Rightarrow> display" where
  "emit e self = self\<lparr>effects := effects self @ [e]\<rparr>"

definition sleep_ms :: "int \<Rightarrow> display \<Rightarrow> display" where
  "sleep_ms ms self = emit (Sleep_ms ms) self"

definition getTicks_ms :: "display \<Rightarrow> int \<times> display" where
  "getTicks_ms self = (ticks self (ticks_calls self), self\<lparr>ticks_calls := Suc (ticks_calls self)\<rparr>)"

text \<open>\<open>getDeltaTime(t2, t1 = -1)\<close>, with the plain difference of the host branch.\<close>

definition getDeltaTime :: "int \<Rightarrow> int \<Rightarrow> display \<Rightarrow> int \<times> display" where
  "getDeltaTime t2 t1 self =
     (if t1 < 0 then (let (now, self1) = getTicks_ms self in (now - t2, self1))
      else (t2 - t1, self))"

definition i2c_writeto :: "byte list \<Rightarrow> display \<Rightarrow> exn option \<times> display" where
  "i2c_writeto v self =
     (let self1 = (emit (Writeto (address self) v) self)\<lparr>writeto_calls := Suc (writeto_calls self)\<rparr>
      in case writeto_raises self (writeto_calls self) of
           Some m \<Rightarrow> (Some (OSError m), self1)
         | None \<Rightarrow> (None, self1))"

definition i2c_readfrom :: "nat \<Rightarrow> display \<Rightarrow> (exn + byte list) \<times> display" where
  "i2c_readfrom n self =
     (let self1 = (emit (Readfrom (address self) n) self)\<lparr>readfrom_calls := Suc (readfrom_calls self)\<rparr>
      in case readfrom_gives self (readfrom_calls self) of
           Inl m \<Rightarrow> (Inl (OSError m), self1)
         | Inr raw \<Rightarrow> (Inr raw, self1))"

section \<open>The recorder\<close>

text \<open>
  \<open>BytesIO.write\<close> at the current position: bytes there are overwritten, a
  position beyond the end is first filled with zero bytes.
\<close>

definition bytesio_write :: "byte list \<Rightarrow> bytesio \<Rightarrow> bytesio" where
  "bytesio_write v f =
     (let p = tell f;
          old = getvalue f;
          padded = old @ replicate (p - length old) 0
      in \<lparr>getvalue = take p padded @ v @ drop (p + length v) padded, tell = p + length v\<rparr>)"

text \<open>\<open>seek(0, 2)\<close> moves to the end and returns the new position.\<close>

definition bytesio_seek_end :: "bytesio \<Rightarrow> nat \<times> bytesio" where
  "bytesio_seek_end f = (length (getvalue f), f\<lparr>tell := length (getvalue f)\<rparr>)"

definition bytesio_seek_start :: "bytesio \<Rightarrow> bytesio" where
  "bytesio_seek_start f = f\<lparr>tell := 0\<rparr>"

definition isRecording :: "display \<Rightarrow> bool" where
  "isRecording self = (paperTrail self \<noteq> None)"

definition startRecording :: "display \<Rightarrow> display" where
  "startRecording self =
     (if \<not> isRecording self then self\<lparr>paperTrail := Some \<lparr>getvalue = [], tell = 0\<rparr>\<rparr>
      else self)"

definition getRecordingSize :: "display \<Rightarrow> nat \<times> display" where
  "getRecordingSize self =
     (case paperTrail self of
        None \<Rightarrow> (0, self)
      | Some f \<Rightarrow> (let (n, f1) = bytesio_seek_end f in (n, self\<lparr>paperTrail := Some f1\<rparr>)))"

text \<open>
  What \<open>stopRecording\<close> returns: \<open>None\<close>, the size, or the recorded bytes.
  The stream handler is a function of the stream it is given: \<open>Some e\<close> when
  it raises \<open>e\<close>, \<open>None\<close> when it returns (its value is not used).
\<close>

datatype recording = NoRecording | RecordingSize nat | Recorded "byte list"

definition stopRecording ::
  "(bytesio \<Rightarrow> exn option) option \<Rightarrow> display \<Rightarrow> (exn + recording) \<times> display" where
  "stopRecording streamHandler self =
     (case paperTrail self of
        None \<Rightarrow> (Inr NoRecording, self)
      | Some f \<Rightarrow>
          (let (outcome, self1) =
                 (case streamHandler of
                    Some h \<Rightarrow>
                      (let (result, self2) = getRecordingSize self
                       in case paperTrail self2 of
                            None \<Rightarrow> (Inl AttributeError, self2)
                          | Some f1 \<Rightarrow>
                              (let f2 = bytesio_seek_start f1;
                                   self3 = self2\<lparr>paperTrail := Some f2\<rparr>
                               in case h f2 of
                                    Some e \<Rightarrow> (Inl e, self3)
                                  | None \<Rightarrow> (Inr (RecordingSize result), self3)))
                  | None \<Rightarrow> (Inr (Recorded (getvalue f)), self))
           in (outcome, self1\<lparr>paperTrail := None\<rparr>)))"

section \<open>The chunked writer\<close>

text \<open>The \<open>else\<close> branch of \<open>_write\<close>: one bus write, recorded and printed on demand.\<close>

definition write_whole :: "byte list \<Rightarrow> display \<Rightarrow> exn option \<times> display" where
  "write_whole v self =
     (case i2c_writeto v self of
        (Some e, self1) \<Rightarrow> (Some e, self1)
      | (None, self1) \<Rightarrow>
          (let self2 = (if isRecording self1
                        then self1\<lparr>paperTrail := map_option (bytesio_write v) (paperTrail self1)\<rparr>
                        else self1);
               self3 = (if debug self2 then emit (Print_bytes v) self2 else self2)
           in (None, self3)))"

text \<open>
  \<open>_write\<close> (here \<open>do_write\<close>) and its loop \<open>for i in range(0, len(v), 64)\<close>, which calls
  \<open>_write\<close> again on each slice \<open>v[i:i+64]\<close>.
\<close>

function do_write :: "byte list \<Rightarrow> display \<Rightarrow> exn option \<times> display"
  and write_loop :: "nat \<Rightarrow> byte list \<Rightarrow> display \<Rightarrow> exn option \<times> display" where
  "do_write v self =
     (if length v > 64 then write_loop 0 v self else write_whole v self)"
| "write_loop i v self =
     (if i < length v then
        (let chunk = take 64 (drop i v)
         in case do_write chunk self of
              (Some e, self1) \<Rightarrow> (Some e, self1)
            | (None, self1) \<Rightarrow> write_loop (i + 64) v (sleep_ms (dataDelay self1) self1))
      else (None, self))"
  by pat_completeness auto
termination
  by (relation "measure (\<lambda>x. case x of
          Inl (v, self) \<Rightarrow> (if length v > 64 then length v + 2 else 0)
        | Inr (i, v, self) \<Rightarrow> 1 + (length v - i))") auto

declare do_write.simps [simp del] write_loop.simps [simp del]

definition executeScript :: "byte list \<Rightarrow> display \<Rightarrow> exn option \<times> display" where
  "executeScript binaryInstructions self = do_write binaryInstructions self"

definition sendCommand :: "byte list \<Rightarrow> pyval list \<Rightarrow> display \<Rightarrow> exn option \<times> display" where
  "sendCommand command args self =
     (case sendCommand_args command args of
        Inl e \<Rightarrow> (Some e, self)
      | Inr command1 \<Rightarrow> do_write command1 self)"


section \<open>Sending files\<close>

definition open_rb :: "string \<Rightarrow> display \<Rightarrow> exn + byte list" where
  "open_rb fileName self =
     (case files self fileName of
        None \<Rightarrow> Inl (OSError ''ENOENT'')
      | Some content \<Rightarrow> Inr content)"

definition getFileSize :: "string \<Rightarrow> display \<Rightarrow> exn + int" where
  "getFileSize fileName self =
     (case open_rb fileName self of
        Inl e \<Rightarrow> Inl e
      | Inr content \<Rightarrow> Inr (int (length content)))"

text \<open>
  The loop of \<open>_sendFile\<close> on what is left of the file: a dot is printed, 128
  bytes are read, and the loop ends with a newline when nothing was read.
\<close>

function sendFile_loop :: "byte list \<Rightarrow> display \<Rightarrow> exn option \<times> display" where
  "sendFile_loop rest self =
     (let self1 = emit (Print_text ''.'') self;
          chunk = take 128 rest
      in if chunk = [] then (None, emit (Print_text [CHR 0x0A]) self1)
         else (case do_write chunk self1 of
                 (Some e, self2) \<Rightarrow> (Some e, self2)
               | (None, self2) \<Rightarrow> sendFile_loop (drop 128 rest) self2))"
  by pat_completeness auto
termination
  by (relation "measure (\<lambda>(rest, self). length rest)") auto

declare sendFile_loop.simps [simp del]

definition sendFile :: "string \<Rightarrow> display \<Rightarrow> exn option \<times> display" where
  "sendFile fileName self =
     (case open_rb fileName self of
        Inl e \<Rightarrow> (Some e, self)
      | Inr content \<Rightarrow> sendFile_loop content self)"

text \<open>\<open>bytes([...])\<close>: ValueError unless every item is in \<open>range(0, 256)\<close>.\<close>

definition bytes_of :: "int list \<Rightarrow> exn + byte list" where
  "bytes_of xs =
     (if list_all (\<lambda>x. 0 \<le> x \<and> x < 256) xs then Inr (map word_of_int xs) else Inl ValueError)"

text \<open>
  The literal \<open>b'\ff'\<close> of \<open>_sendLargeFileSlowly\<close>: the escape \<open>\f\<close> is a
  form feed, and the letter \<open>f\<close> follows it.
\<close>

definition end_indicator :: "byte list" where
  "end_indicator = [0x0C, 0x66]"

definition sendLargeFileSlowly :: "string \<Rightarrow> display \<Rightarrow> exn option \<times> display" where
  "sendLargeFileSlowly fileName self =
     (case getFileSize fileName self of
        Inl e \<Rightarrow> (Some e, self)
      | Inr fsize \<Rightarrow>
          (let stdDelay = dataDelay self;
               self1 = self\<lparr>dataDelay := 40\<rparr>
           in case bytes_of [fsize div 256, fsize mod 256] of
                Inl e \<Rightarrow> (Some e, self1)
              | Inr header \<Rightarrow>
                  (case do_write header self1 of
                     (Some e, self2) \<Rightarrow> (Some e, self2)
                   | (None, self2) \<Rightarrow>
                       (case sendFile fileName (sleep_ms 200 self2) of
                          (Some e, self3) \<Rightarrow> (Some e, self3)
                        | (None, self3) \<Rightarrow>
                            (case do_write end_indicator self3 of
                               (Some e, self4) \<Rightarrow> (Some e, self4)
                             | (None, self4) \<Rightarrow>
                                 (None, (sleep_ms 40 self4)\<lparr>dataDelay := stdDelay\<rparr>))))))"

section \<open>Read requests and their responses\<close>

text \<open>
  A read method of \<open>DigoleDisplay\<close>: the command of the base class is sent,
  then the request is appended to \<open>_waitBuffer\<close> with the time of the call.
\<close>

definition request :: "string \<Rightarrow> EventCode \<Rightarrow> nat \<Rightarrow> display \<Rightarrow> exn option \<times> display" where
  "request opcode event_code argCount self =
     (case sendCommand (encode_utf8 opcode) [] self of
        (Some e, self1) \<Rightarrow> (Some e, self1)
      | (None, self1) \<Rightarrow>
          (let (now, self2) = getTicks_ms self1
           in (None, self2\<lparr>waitBuffer := waitBuffer self2 @ [(event_code, argCount, now)]\<rparr>)))"

definition checkTouchScreen :: "display \<Rightarrow> exn option \<times> display" where
  "checkTouchScreen = request ''RPNXYI'' CLICK 2"

definition readAnalog :: "display \<Rightarrow> exn option \<times> display" where
  "readAnalog = request ''RDAUX'' ANALOG 1"

definition readClick :: "display \<Rightarrow> exn option \<times> display" where
  "readClick = request ''RPNXYC'' CLICK 2"

definition readTemperature :: "display \<Rightarrow> exn option \<times> display" where
  "readTemperature = request ''RDTMP'' TEMP 1"

definition readTouchScreen :: "display \<Rightarrow> exn option \<times> display" where
  "readTouchScreen = request ''RPNXYW'' CLICK 2"

definition readVoltage :: "display \<Rightarrow> exn option \<times> display" where
  "readVoltage = request ''RDBAT'' VOLTAGE 1"

text \<open>\<open>int.from_bytes(raw, "big")\<close>.\<close>

definition from_bytes_big :: "byte list \<Rightarrow> int" where
  "from_bytes_big raw = foldl (\<lambda>acc b. acc * 256 + uint b) 0 raw"

definition readInt :: "display \<Rightarrow> (exn + int list) \<times> display" where
  "readInt self =
     (case i2c_readfrom 2 self of
        (Inl e, self1) \<Rightarrow> (Inl e, self1)
      | (Inr raw, self1) \<Rightarrow> (Inr [from_bytes_big raw], sleep_ms 1 self1))"

text \<open>\<open>needle in hay\<close> on texts.\<close>

fun contains :: "string \<Rightarrow> string \<Rightarrow> bool" where
  "contains needle [] = (needle = [])"
| "contains needle (c # cs) = (take (length needle) (c # cs) = needle \<or> contains needle cs)"

text \<open>
  The first loop of \<open>doCheck\<close>, one turn for each entry of \<open>_waitBuffer\<close>:
  \<open>n\<close> turns are left.
\<close>

fun doCheck_read :: "nat \<Rightarrow> display \<Rightarrow> exn option \<times> display" where
  "doCheck_read 0 self = (None, self)"
| "doCheck_read (Suc n) self =
     (case readInt self of
        (Inl e, self1) \<Rightarrow> (Some e, self1)
      | (Inr ii, self1) \<Rightarrow> doCheck_read n (self1\<lparr>inBuffer := inBuffer self1 @ ii\<rparr>))"

text \<open>
  The arguments of an event: a raw value as read, or one of the two derived
  readings, which are floating-point numbers in the source and are kept here as
  the raw value they are computed from: \<open>AnalogVolts d\<close> is
  \<open>d * 2.5/4096.\<close> and \<open>Celsius d\<close> is \<open>(653-(d * 2500./4096.))/2.1\<close>.
\<close>

datatype arg = Raw int | AnalogVolts int | Celsius int

type_synonym event = "EventCode \<times> arg list"

text \<open>
  What the second loop of \<open>doCheck\<close> does with the arguments it popped for an
  entry: \<open>Inr None\<close> is the \<open>continue\<close> of a rejected click, \<open>Inr (Some
  args)\<close> the arguments of the event to append, and \<open>args[0]\<close> on an empty
  list raises IndexError.
\<close>

definition doCheck_process :: "EventCode \<Rightarrow> int list \<Rightarrow> exn + arg list option" where
  "doCheck_process event_code args =
     (case args of
        [] \<Rightarrow>
          (if event_code = CLICK \<or> event_code = ANALOG \<or> event_code = TEMP
           then Inl IndexError
           else Inr (Some []))
      | first # _ \<Rightarrow>
          (if event_code = CLICK \<and> first > 1000 then Inr None
           else
             (let args1 = (if event_code = ANALOG then AnalogVolts first # map Raw args
                           else map Raw args);
                  args2 = (if event_code = TEMP then Celsius first # args1 else args1)
              in Inr (Some args2))))"

text \<open>
  The second loop of \<open>doCheck\<close>, \<open>for ... in self._waitBuffer\<close>. The loop
  reads the list by position: \<open>i\<close> is the position of the entry the iterator
  hands out next, and \<open>pop(0)\<close> shortens the list under it.
\<close>

function doCheck_walk :: "nat \<Rightarrow> event list \<Rightarrow> display \<Rightarrow> (exn + event list) \<times> display" where
  "doCheck_walk i result self =
     (if i < length (waitBuffer self) then
        (case waitBuffer self ! i of (event_code, argCount, timeStamp) \<Rightarrow>
           (case getDeltaTime timeStamp (-1) self of (age, self1) \<Rightarrow>
              if age > 2000 then
                doCheck_walk (i + 1) result (self1\<lparr>waitBuffer := tl (waitBuffer self1)\<rparr>)
              else if length (inBuffer self1) < argCount then (Inr result, self1)
              else
                (let args = take argCount (inBuffer self1);
                     self2 = self1\<lparr>inBuffer := drop argCount (inBuffer self1)\<rparr>
                 in case doCheck_process event_code args of
                      Inl e \<Rightarrow> (Inl e, self2)
                    | Inr None \<Rightarrow> doCheck_walk (i + 1) result self2
                    | Inr (Some args1) \<Rightarrow>
                        doCheck_walk (i + 1) (result @ [(event_code, args1)]) self2)))
      else (Inr result, self))"
  by pat_completeness auto
termination
  by (relation "measure (\<lambda>(i, result, self). length (waitBuffer self) - i)")
     (auto simp: getDeltaTime_def getTicks_ms_def split: prod.splits)

declare doCheck_walk.simps [simp del]

text \<open>The handler \<open>except OSError as e: if not "ETIMEDOUT" in str(e): raise\<close>.\<close>

definition doCheck_swallows :: "exn \<Rightarrow> bool" where
  "doCheck_swallows e = (case e of OSError m \<Rightarrow> contains ''ETIMEDOUT'' m | _ \<Rightarrow> False)"

text \<open>The rest of \<open>doCheck\<close>, from \<open>result = []\<close> on.\<close>

definition doCheck_match :: "display \<Rightarrow> (exn + event list) \<times> display" where
  "doCheck_match self =
     (case doCheck_walk 0 [] self of
        (Inl e, self1) \<Rightarrow> (Inl e, self1)
      | (Inr result, self1) \<Rightarrow>
          (Inr result, if waitBuffer self1 = [] then self1\<lparr>inBuffer := []\<rparr> else self1))"

definition doCheck :: "display \<Rightarrow> (exn + event list) \<times> display" where
  "doCheck self =
     (case doCheck_read (length (waitBuffer self)) self of
        (Some e, self1) \<Rightarrow> (if doCheck_swallows e then doCheck_match self1 else (Inl e, self1))
      | (None, self1) \<Rightarrow> doCheck_match self1)"

section \<open>What the specification says of the integer encoding\<close>

text \<open>
  The extension-byte scheme in the specification's words: \<open>bs\<close> is zero or
  more bytes 0xFF followed by exactly one final byte below 255, and 255 times
  the number of extension bytes plus the final byte is \<open>n\<close>.
\<close>

definition extension_bytes :: "int \<Rightarrow> byte list \<Rightarrow> bool" where
  "extension_bytes n bs =
     (bs \<noteq> [] \<and> butlast bs = replicate (length bs - 1) 0xFF \<and> last bs < 0xFF \<and>
      255 * int (length bs - 1) + uint (last bs) = n)"

section \<open>Reading the effects\<close>

text \<open>The payloads of the bus writes among the effects, oldest first.\<close>

fun writes_of :: "effect list \<Rightarrow> byte list list" where
  "writes_of [] = []"
| "writes_of (Writeto a v # es) = v # writes_of es"
| "writes_of (e # es) = writes_of es"

section \<open>Concrete surroundings for the examples\<close>

text \<open>
  A display at address 39 whose bus accepts every write, with the responses
  \<open>r\<close> to reads, the clock \<open>t\<close> and no files.
\<close>

definition display_with :: "(nat \<Rightarrow> string + byte list) \<Rightarrow> (nat \<Rightarrow> int) \<Rightarrow> display" where
  "display_with r t = init 39 (\<lambda>k. None) r t (\<lambda>name. None)"

text \<open>A bus with nothing to read: every read times out.\<close>

definition silent :: "nat \<Rightarrow> string + byte list" where
  "silent k = Inl ''[Errno 110] ETIMEDOUT''"

text \<open>The state a call leaves behind, whether it returned or raised.\<close>

definition after :: "'a \<times> display \<Rightarrow> display" where
  "after r = snd r"

text \<open>The bus answers the first read with 3300, the second with 1000, then nothing.\<close>

definition two_answers :: "nat \<Rightarrow> string + byte list" where
  "two_answers k = (if k = 0 then Inr [0x0C, 0xE4] else if k = 1 then Inr [0x03, 0xE8] else silent k)"

text \<open>The bus answers the first read with 7, then nothing.\<close>

definition one_answer :: "nat \<Rightarrow> string + byte list" where
  "one_answer k = (if k = 0 then Inr [0x00, 0x07] else silent k)"

text \<open>A voltage request at time 0, on a clock that advances 100 ms per reading.\<close>

definition voltage_pending :: display where
  "voltage_pending = after (readVoltage (display_with two_answers (\<lambda>k. 100 * int k)))"

text \<open>The same display after one poll and a temperature request at time 200.\<close>

definition temperature_pending :: display where
  "temperature_pending = after (readTemperature (after (doCheck voltage_pending)))"

text \<open>
  A voltage and a temperature request at time 0 that nothing answers, on a
  clock that reads 3000 from then on.
\<close>

definition two_stale :: display where
  "two_stale =
     after (readTemperature (after (readVoltage
       (display_with silent (\<lambda>k. if k < 2 then 0 else 3000)))))"

text \<open>
  A voltage request at time 0, a click request at 1500 and a voltage request
  at 1600, on a clock that reads 2100 from then on; one value arrives.
\<close>

definition stale_then_two_fresh :: display where
  "stale_then_two_fresh =
     after (readVoltage (after (readClick (after (readVoltage
       (display_with one_answer
          (\<lambda>k. if k = 0 then 0 else if k = 1 then 1500 else if k = 2 then 1600 else 2100)))))))"

text \<open>A file of 70 bytes named ``logo''.\<close>

definition with_logo :: display where
  "with_logo =
     (display_with silent (\<lambda>k. 0))
       \<lparr>files := (\<lambda>name. if name = ''logo'' then Some (replicate 70 1) else None)\<rparr>"

text \<open>
  A click request and a voltage request at time 0 with three values waiting,
  the first of them above 1000.
\<close>

definition click_no_touch :: display where
  "click_no_touch =
     (display_with silent (\<lambda>k. 0))
       \<lparr>waitBuffer := [(CLICK, 2, 0), (VOLTAGE, 1, 0)], inBuffer := [1500, 7, 3300]\<rparr>"

text \<open>A recording of the command \<open>GP 300 10\<close>.\<close>

definition recorded_GP :: display where
  "recorded_GP =
     after (sendCommand (encode_utf8 ''GP'') [PyInt 300, PyInt 10]
       (startRecording (display_with silent (\<lambda>k. 0))))"

text \<open>The recorder keeps the stream position at the end of what it recorded.\<close>

definition trail_at_end :: "display \<Rightarrow> bool" where
  "trail_at_end self =
     (case paperTrail self of None \<Rightarrow> True | Some f \<Rightarrow> tell f = length (getvalue f))"

chapter \<open>Properties\<close>

section \<open>The command encoder\<close>

lemma sendCommand_arg_int:
  "sendCommand_arg command (PyInt n) =
     (if 0 \<le> n \<and> n < 255 then Inr (command @ [word_of_int n])
      else if 255 \<le> n \<and> n \<le> 510 then Inr (command @ [0xFF, word_of_int (n - 255)])
      else Inl OverflowError)"
  by (simp add: to_bytes1_def)

lemma byte_of_int_less:
  "0 \<le> n \<Longrightarrow> n < 255 \<Longrightarrow> (word_of_int n :: byte) < 0xFF \<and> uint (word_of_int n :: byte) = n"
  by (simp add: word_less_def uint_word_of_int take_bit_int_eq_self)

text \<open>
  Claim C1, as amended. For every integer argument \<open>n\<close> from 0 to 509 the
  bytes emitted for it are zero or more bytes 0xFF followed by exactly one
  final byte below 255, and 255 times the number of extension bytes plus the
  final byte is \<open>n\<close>; 254 gives [254], 255 gives [0xFF, 0] and 300 gives
  [0xFF, 45].
\<close>

theorem sendCommand_int_extension:
  "(0 \<le> n \<and> n \<le> 509 \<longrightarrow>
      (\<exists>bs. sendCommand_arg command (PyInt n) = Inr (command @ bs) \<and>
            extension_bytes n bs)) \<and>
   sendCommand_arg command (PyInt 254) = Inr (command @ [254]) \<and>
   sendCommand_arg command (PyInt 255) = Inr (command @ [0xFF, 0]) \<and>
   sendCommand_arg command (PyInt 300) = Inr (command @ [0xFF, 45])"
proof -
  have small: "\<exists>bs. sendCommand_arg command (PyInt n) = Inr (command @ bs) \<and>
            extension_bytes n bs" if "0 \<le> n" "n < 255"
  proof -
    have "sendCommand_arg command (PyInt n) = Inr (command @ [word_of_int n])"
      unfolding sendCommand_arg_int using that by simp
    moreover have "extension_bytes n [word_of_int n]"
      using byte_of_int_less [OF that] by (simp add: extension_bytes_def)
    ultimately show ?thesis by fastforce
  qed
  have large: "\<exists>bs. sendCommand_arg command (PyInt n) = Inr (command @ bs) \<and>
            extension_bytes n bs" if "255 \<le> n" "n \<le> 509"
  proof -
    have "sendCommand_arg command (PyInt n) = Inr (command @ [0xFF, word_of_int (n - 255)])"
      unfolding sendCommand_arg_int using that by simp
    moreover have "extension_bytes n [0xFF, word_of_int (n - 255)]"
      using byte_of_int_less [of "n - 255"] that by (simp add: extension_bytes_def)
    ultimately show ?thesis by fastforce
  qed
  have "0 \<le> n \<and> n \<le> 509 \<longrightarrow>
      (\<exists>bs. sendCommand_arg command (PyInt n) = Inr (command @ bs) \<and>
            extension_bytes n bs)"
    using small large by (cases "n < 255") auto
  then show ?thesis
    unfolding sendCommand_arg_int by simp
qed

theorem sendCommand_int_extension_witness:
  "(0 :: int) \<le> 300 \<and> (300 :: int) \<le> 509 \<and>
   (\<exists>bs. sendCommand_arg [0x47, 0x50] (PyInt 300) = Inr ([0x47, 0x50] @ bs) \<and>
         extension_bytes 300 bs) \<and>
   sendCommand_arg [0x47, 0x50] (PyInt 300) = Inr ([0x47, 0x50] @ [0xFF, 45])"
proof -
  have range: "(0 :: int) \<le> 300 \<and> (300 :: int) \<le> 509" by simp
  from sendCommand_int_extension [of 300 "[0x47, 0x50]"] range
  show ?thesis by blast
qed

text \<open>
  The claim as the specification states it, for every \<open>n \<ge> 0\<close>, fails at 511,
  where the encoder raises, and at 510, where the final byte is 255.
\<close>

theorem sendCommand_int_overflow_counterexample:
  "sendCommand_arg [] (PyInt 511) = Inl OverflowError \<and>
   sendCommand_arg [] (PyInt 510) = Inr [0xFF, 0xFF] \<and>
   \<not> extension_bytes 510 [0xFF, 0xFF]"
  by (simp add: to_bytes1_def extension_bytes_def)

text \<open>
  Claim C10. A \<open>bool\<close> fails the test \<open>type(arg) is int\<close>, so it is sent as
  text: \<open>True\<close> as the bytes of ``True'' and one zero byte, \<open>False\<close> as the
  bytes of ``False'' and one zero byte, exactly as the string or any other
  value with that text would be, and not as the integer 1 or 0.
\<close>

theorem sendCommand_bool_as_text:
  "sendCommand_arg command (PyBool True) = Inr (command @ [0x54, 0x72, 0x75, 0x65, 0]) \<and>
   sendCommand_arg command (PyBool False) = Inr (command @ [0x46, 0x61, 0x6C, 0x73, 0x65, 0]) \<and>
   sendCommand_arg command (PyBool b) = Inr (command @ encode_utf8 (str_bool b) @ [0]) \<and>
   sendCommand_arg command (PyBool b) = sendCommand_arg command (PyStr (str_bool b)) \<and>
   sendCommand_arg command (PyBool b) = sendCommand_arg command (PyOther (str_bool b)) \<and>
   sendCommand_arg command (PyBool b) \<noteq> sendCommand_arg command (PyInt (if b then 1 else 0)) \<and>
   sendCommand command [PyBool b] self = do_write (command @ encode_utf8 (str_bool b) @ [0]) self"
  by (simp add: sendCommand_def sendCommand_text_def to_bytes1_def encode_utf8_def str_bool_def)

section \<open>The chunked writer\<close>

lemma writes_of_append: "writes_of (es @ fs) = writes_of es @ writes_of fs"
  by (induction es rule: writes_of.induct) auto

lemma write_whole_accepted:
  assumes "writeto_raises self (writeto_calls self) = None"
  shows "\<exists>self1. write_whole v self = (None, self1) \<and>
           writes_of (effects self1) = writes_of (effects self) @ [v] \<and>
           writeto_raises self1 = writeto_raises self"
  using assms
  by (simp add: write_whole_def i2c_writeto_def emit_def isRecording_def Let_def writes_of_append)

lemma do_write_short: "length v \<le> 64 \<Longrightarrow> do_write v self = write_whole v self"
  by (subst do_write.simps) simp

lemma write_loop_accepted:
  assumes "\<forall>k. writeto_raises self k = None"
  shows "\<exists>segs self1. write_loop i v self = (None, self1) \<and>
           writes_of (effects self1) = writes_of (effects self) @ segs \<and>
           concat segs = drop i v \<and> list_all (\<lambda>s. length s \<le> 64) segs \<and>
           writeto_raises self1 = writeto_raises self"
  using assms
proof (induction "length v - i" arbitrary: i self rule: less_induct)
  case less
  show ?case
  proof (cases "i < length v")
    case False
    then have "write_loop i v self = (None, self)"
      by (subst write_loop.simps) simp
    with False show ?thesis by simp
  next
    case True
    let ?chunk = "take 64 (drop i v)"
    from less.prems have "writeto_raises self (writeto_calls self) = None" by simp
    from write_whole_accepted [OF this, of ?chunk]
    obtain self1 where w: "write_whole ?chunk self = (None, self1)"
      and e1: "writes_of (effects self1) = writes_of (effects self) @ [?chunk]"
      and r1: "writeto_raises self1 = writeto_raises self" by blast
    let ?self2 = "sleep_ms (dataDelay self1) self1"
    have e2: "writes_of (effects ?self2) = writes_of (effects self) @ [?chunk]"
      and r2: "writeto_raises ?self2 = writeto_raises self"
      using e1 r1 by (simp_all add: sleep_ms_def emit_def writes_of_append)
    have "length v - (i + 64) < length v - i" using True by simp
    moreover have "\<forall>k. writeto_raises ?self2 k = None" using r2 less.prems by simp
    ultimately obtain segs self3 where l: "write_loop (i + 64) v ?self2 = (None, self3)"
      and e3: "writes_of (effects self3) = writes_of (effects ?self2) @ segs"
      and c3: "concat segs = drop (i + 64) v"
      and s3: "list_all (\<lambda>s. length s \<le> 64) segs"
      and r3: "writeto_raises self3 = writeto_raises ?self2"
      using less.hyps [of "i + 64" ?self2] by blast
    have "write_loop i v self = (None, self3)"
      using True w l by (subst write_loop.simps) (simp add: do_write_short)
    moreover have "writes_of (effects self3) = writes_of (effects self) @ (?chunk # segs)"
      using e3 e2 by simp
    moreover have "concat (?chunk # segs) = drop i v"
    proof -
      have "drop (i + 64) v = drop 64 (drop i v)" by (simp add: add.commute)
      with c3 have "concat (?chunk # segs) = take 64 (drop i v) @ drop 64 (drop i v)" by simp
      then show ?thesis by (simp only: append_take_drop_id)
    qed
    moreover have "list_all (\<lambda>s. length s \<le> 64) (?chunk # segs)"
      using s3 by simp
    moreover have "writeto_raises self3 = writeto_raises self"
      using r3 r2 by simp
    ultimately show ?thesis by blast
  qed
qed

text \<open>
  Claim C3. On a bus that accepts the writes, \<open>_write\<close> returns for every
  byte sequence \<open>v\<close>, and the bus writes it performs are segments of at most
  64 bytes each whose concatenation, in order, is \<open>v\<close>; when \<open>v\<close> has at
  most 64 bytes there is a single write, of \<open>v\<close> itself.
\<close>

theorem do_write_segments:
  assumes "\<forall>k. writeto_raises self k = None"
  shows "\<exists>segs self1. do_write v self = (None, self1) \<and>
           writes_of (effects self1) = writes_of (effects self) @ segs \<and>
           concat segs = v \<and> list_all (\<lambda>s. length s \<le> 64) segs \<and>
           (length v \<le> 64 \<longrightarrow> segs = [v])"
proof (cases "length v \<le> 64")
  case True
  from assms have "writeto_raises self (writeto_calls self) = None" by simp
  from write_whole_accepted [OF this, of v] True show ?thesis
    by (fastforce simp: do_write_short)
next
  case False
  then have "do_write v self = write_loop 0 v self"
    by (subst do_write.simps) simp
  with write_loop_accepted [OF assms, of 0 v] False show ?thesis
    by fastforce
qed

theorem do_write_segments_witness:
  "(\<forall>k. writeto_raises (display_with silent (\<lambda>k. 0)) k = None) \<and>
   (\<exists>segs self1.
      do_write (replicate 130 7) (display_with silent (\<lambda>k. 0)) = (None, self1) \<and>
      writes_of (effects self1) = writes_of (effects (display_with silent (\<lambda>k. 0))) @ segs \<and>
      concat segs = replicate 130 7 \<and> list_all (\<lambda>s. length s \<le> 64) segs \<and>
      (length (replicate 130 (7 :: byte)) \<le> 64 \<longrightarrow> segs = [replicate 130 7])) \<and>
   writes_of (effects (after (do_write (replicate 130 7) (display_with silent (\<lambda>k. 0))))) =
     [replicate 64 7, replicate 64 7, [7, 7]]"
proof -
  have accepts: "\<forall>k. writeto_raises (display_with silent (\<lambda>k. 0)) k = None"
    by (simp add: display_with_def init_def)
  have segments:
    "writes_of (effects (after (do_write (replicate 130 7) (display_with silent (\<lambda>k. 0))))) =
       [replicate 64 7, replicate 64 7, [7, 7]]"
    by code_simp
  show ?thesis
    by (rule conjI [OF accepts conjI [OF do_write_segments [OF accepts] segments]])
qed

section \<open>The paced bulk transfer\<close>

text \<open>
  Claim C6, at a file of 70 bytes. \<open>_sendLargeFileSlowly\<close> writes the two
  length bytes, sleeps 200 ms, sends the payload in segments with 40 ms after
  each, and restores the delay of 5 ms at the end; but what it writes after the
  payload is the two bytes 0x0C 0x66 of the literal \<open>b'\ff'\<close>, not a single
  terminator byte.
\<close>

theorem sendLargeFileSlowly_two_byte_terminator:
  "fst (sendLargeFileSlowly ''logo'' with_logo) = None \<and>
   effects (after (sendLargeFileSlowly ''logo'' with_logo)) =
     [Writeto 39 [0, 70], Sleep_ms 200,
      Print_text ''.'', Writeto 39 (replicate 64 1), Sleep_ms 40,
      Writeto 39 (replicate 6 1), Sleep_ms 40,
      Print_text ''.'', Print_text [CHR 0x0A],
      Writeto 39 [0x0C, 0x66], Sleep_ms 40] \<and>
   dataDelay with_logo = 5 \<and>
   dataDelay (after (sendLargeFileSlowly ''logo'' with_logo)) = 5"
  by code_simp

section \<open>The response correlator\<close>

text \<open>
  Claim C2, at one voltage request answered with 3300. The poll pops the value
  and emits the event, but the request is still in \<open>_waitBuffer\<close> when the poll
  returns: only the timeout branch of \<open>doCheck\<close> removes an entry. The next
  poll therefore hands the answer 1000 to a later temperature request out as a
  second voltage event.
\<close>

theorem doCheck_keeps_correlated_request:
  "waitBuffer voltage_pending = [(VOLTAGE, 1, 0)] \<and>
   fst (doCheck voltage_pending) = Inr [(VOLTAGE, [Raw 3300])] \<and>
   waitBuffer (after (doCheck voltage_pending)) = [(VOLTAGE, 1, 0)] \<and>
   waitBuffer temperature_pending = [(VOLTAGE, 1, 0), (TEMP, 1, 200)] \<and>
   fst (doCheck temperature_pending) = Inr [(VOLTAGE, [Raw 1000])] \<and>
   waitBuffer (after (doCheck temperature_pending)) = [(VOLTAGE, 1, 0), (TEMP, 1, 200)]"
  by code_simp

text \<open>
  Claim C4, at two requests that are both 3000 ms old when polled. The poll
  removes the first; \<open>pop(0)\<close> moves the second under the position the loop
  has already passed, so the second stale request is not looked at and is still
  pending when the poll returns.
\<close>

theorem doCheck_skips_second_stale_request:
  "waitBuffer two_stale = [(VOLTAGE, 1, 0), (TEMP, 1, 0)] \<and>
   ticks two_stale (ticks_calls two_stale) = 3000 \<and>
   fst (doCheck two_stale) = Inr [] \<and>
   waitBuffer (after (doCheck two_stale)) = [(TEMP, 1, 0)]"
  by code_simp

text \<open>
  Claim C5, at a stale request followed by a fresh click request (two values)
  and a fresh voltage request (one value), polled when one value has arrived.
  The oldest request that has not expired is the click, which one value cannot
  satisfy; the loop, having removed the stale entry, passes over the click and
  gives the value to the voltage request behind it.
\<close>

theorem doCheck_skips_ahead_after_stale_request:
  "waitBuffer stale_then_two_fresh = [(VOLTAGE, 1, 0), (CLICK, 2, 1500), (VOLTAGE, 1, 1600)] \<and>
   ticks stale_then_two_fresh (ticks_calls stale_then_two_fresh) = 2100 \<and>
   fst (doCheck stale_then_two_fresh) = Inr [(VOLTAGE, [Raw 7])] \<and>
   waitBuffer (after (doCheck stale_then_two_fresh)) = [(CLICK, 2, 1500), (VOLTAGE, 1, 1600)] \<and>
   inBuffer (after (doCheck stale_then_two_fresh)) = []"
  by code_simp

section \<open>The recorder\<close>

lemma bytesio_write_at_end:
  "tell f = length (getvalue f) \<Longrightarrow>
   bytesio_write v f = \<lparr>getvalue = getvalue f @ v, tell = length (getvalue f) + length v\<rparr>"
  by (simp add: bytesio_write_def Let_def)

lemma trail_at_end_init: "trail_at_end (init addr w r t fs)"
  by (simp add: trail_at_end_def init_def)

lemma trail_at_end_startRecording: "trail_at_end self \<Longrightarrow> trail_at_end (startRecording self)"
  by (simp add: trail_at_end_def startRecording_def isRecording_def)

lemma trail_at_end_getRecordingSize:
  "trail_at_end (snd (getRecordingSize self))"
  by (simp add: trail_at_end_def getRecordingSize_def bytesio_seek_end_def split: option.splits)

lemma trail_at_end_stopRecording: "trail_at_end (snd (stopRecording h self))"
  by (simp add: trail_at_end_def stopRecording_def getRecordingSize_def bytesio_seek_end_def
        Let_def split: option.splits prod.splits)

lemma trail_at_end_write_whole:
  "trail_at_end self \<Longrightarrow> trail_at_end (snd (write_whole v self))"
  by (auto simp: trail_at_end_def write_whole_def i2c_writeto_def emit_def isRecording_def
        Let_def bytesio_write_at_end split: option.splits)

lemma trail_at_end_write_loop:
  "trail_at_end self \<Longrightarrow> trail_at_end (snd (write_loop i v self))"
proof (induction "length v - i" arbitrary: i self rule: less_induct)
  case less
  show ?case
  proof (cases "i < length v")
    case False
    with less.prems show ?thesis by (subst write_loop.simps) simp
  next
    case True
    let ?chunk = "take 64 (drop i v)"
    obtain r self1 where w: "write_whole ?chunk self = (r, self1)" by (cases "write_whole ?chunk self")
    with trail_at_end_write_whole [OF less.prems, of ?chunk] have t1: "trail_at_end self1" by simp
    show ?thesis
    proof (cases r)
      case (Some e)
      with True w t1 show ?thesis
        by (subst write_loop.simps) (simp add: do_write_short)
    next
      case None
      have "trail_at_end (sleep_ms (dataDelay self1) self1)"
        using t1 by (simp add: trail_at_end_def sleep_ms_def emit_def)
      moreover have "length v - (i + 64) < length v - i" using True by simp
      ultimately have "trail_at_end (snd (write_loop (i + 64) v (sleep_ms (dataDelay self1) self1)))"
        using less.hyps by blast
      with True w None show ?thesis
        by (subst write_loop.simps) (simp add: do_write_short)
    qed
  qed
qed

lemma trail_at_end_do_write:
  "trail_at_end self \<Longrightarrow> trail_at_end (snd (do_write v self))"
  by (subst do_write.simps) (simp add: trail_at_end_write_whole trail_at_end_write_loop)

lemma recorded_GP_trail:
  "paperTrail recorded_GP = Some \<lparr>getvalue = [0x47, 0x50, 0xFF, 45, 10], tell = 5\<rparr>"
  by code_simp

lemma idle_trail: "paperTrail (display_with silent (\<lambda>k. 0)) = None"
  by (simp add: display_with_def init_def)

text \<open>
  Claim C8. Starting twice is starting once, and \<open>startRecording\<close> leaves a
  recording in progress as it is. \<open>getRecordingSize\<close> returns 0 and changes
  nothing when idle; when recording it returns the length of the buffer, and
  leaves the recorder recording with the same bytes. All it does to the stream
  is \<open>seek(0, 2)\<close>, and the stream of a recorder is at its end already
  (\<open>trail_at_end\<close>, which every operation above keeps), so the state is
  unchanged.
\<close>

theorem recorder_idempotent_start_and_size:
  "startRecording (startRecording self) = startRecording self \<and>
   (isRecording self \<longrightarrow> startRecording self = self) \<and>
   (\<not> isRecording self \<longrightarrow> getRecordingSize self = (0, self)) \<and>
   (paperTrail self = Some f \<longrightarrow>
      fst (getRecordingSize self) = length (getvalue f) \<and>
      isRecording (snd (getRecordingSize self)) \<and>
      map_option getvalue (paperTrail (snd (getRecordingSize self))) = Some (getvalue f)) \<and>
   (trail_at_end self \<longrightarrow> snd (getRecordingSize self) = self)"
  by (auto simp: startRecording_def isRecording_def getRecordingSize_def bytesio_seek_end_def
        trail_at_end_def split: option.splits)

theorem recorder_idempotent_start_and_size_witness:
  "isRecording recorded_GP \<and>
   startRecording recorded_GP = recorded_GP \<and>
   fst (getRecordingSize recorded_GP) = 5 \<and>
   trail_at_end recorded_GP \<and>
   snd (getRecordingSize recorded_GP) = recorded_GP \<and>
   \<not> isRecording (display_with silent (\<lambda>k. 0)) \<and>
   getRecordingSize (display_with silent (\<lambda>k. 0)) = (0, display_with silent (\<lambda>k. 0))"
proof -
  have rec: "isRecording recorded_GP"
    by (simp add: isRecording_def recorded_GP_trail)
  have at_end: "trail_at_end recorded_GP"
    by (simp add: trail_at_end_def recorded_GP_trail)
  have idle: "\<not> isRecording (display_with silent (\<lambda>k. 0))"
    by (simp add: isRecording_def idle_trail)
  from recorder_idempotent_start_and_size
         [of recorded_GP "\<lparr>getvalue = [0x47, 0x50, 0xFF, 45, 10], tell = 5\<rparr>"]
       recorder_idempotent_start_and_size [of "display_with silent (\<lambda>k. 0)"]
       rec at_end idle recorded_GP_trail
  show ?thesis by simp
qed



section \<open>Rejected clicks\<close>

text \<open>
  Claim C9. When the loop of \<open>doCheck\<close> reaches a click request of two
  values that has not expired, and the first value waiting is above 1000, it
  appends no event, pops both values, and goes on to the next entry with the
  values that remain, in their order.
\<close>

theorem doCheck_click_rejected:
  assumes "i < length (waitBuffer self)"
    and "waitBuffer self ! i = (CLICK, 2, timeStamp)"
    and "ticks self (ticks_calls self) - timeStamp \<le> 2000"
    and "inBuffer self = x # y # rest"
    and "x > 1000"
  shows "doCheck_walk i result self =
           doCheck_walk (i + 1) result
             (self\<lparr>ticks_calls := Suc (ticks_calls self), inBuffer := rest\<rparr>)"
  using assms
  by (subst doCheck_walk.simps)
     (simp add: getDeltaTime_def getTicks_ms_def doCheck_process_def Let_def)

theorem doCheck_click_rejected_witness:
  "waitBuffer click_no_touch ! 0 = (CLICK, 2, 0) \<and>
   inBuffer click_no_touch = [1500, 7, 3300] \<and>
   doCheck_walk 0 [] click_no_touch =
     doCheck_walk 1 []
       (click_no_touch\<lparr>ticks_calls := Suc (ticks_calls click_no_touch), inBuffer := [3300]\<rparr>) \<and>
   fst (doCheck click_no_touch) = Inr [(VOLTAGE, [Raw 3300])] \<and>
   inBuffer (after (doCheck click_no_touch)) = []"
proof -
  have w: "waitBuffer click_no_touch = [(CLICK, 2, 0), (VOLTAGE, 1, 0)]"
    and b: "inBuffer click_no_touch = [1500, 7, 3300]"
    and t: "ticks click_no_touch (ticks_calls click_no_touch) = 0"
    by (simp_all add: click_no_touch_def display_with_def init_def)
  have step: "doCheck_walk 0 [] click_no_touch =
     doCheck_walk (0 + 1) []
       (click_no_touch\<lparr>ticks_calls := Suc (ticks_calls click_no_touch), inBuffer := [3300]\<rparr>)"
    by (rule doCheck_click_rejected [where timeStamp = 0 and x = 1500 and y = 7])
       (simp_all add: w b t)
  have poll: "fst (doCheck click_no_touch) = Inr [(VOLTAGE, [Raw 3300])]"
    and left: "inBuffer (after (doCheck click_no_touch)) = []"
    by code_simp+
  from w b step poll left show ?thesis by simp
qed

section \<open>The loop of doCheck, one entry at a time\<close>

text \<open>
  What the loop does with the entry at its position: an expired entry makes it
  drop the head of \<open>_waitBuffer\<close> and pop no value; an entry that has not
  expired and wants more values than are waiting ends the loop; otherwise the
  values are popped in order and the event is appended. The entry itself stays
  in \<open>_waitBuffer\<close>.
\<close>

lemma doCheck_walk_done:
  "\<not> i < length (waitBuffer self) \<Longrightarrow> doCheck_walk i result self = (Inr result, self)"
  by (subst doCheck_walk.simps) simp

lemma doCheck_walk_expired:
  assumes "i < length (waitBuffer self)"
    and "waitBuffer self ! i = (event_code, argCount, timeStamp)"
    and "ticks self (ticks_calls self) - timeStamp > 2000"
  shows "doCheck_walk i result self =
           doCheck_walk (i + 1) result
             (self\<lparr>ticks_calls := Suc (ticks_calls self), waitBuffer := tl (waitBuffer self)\<rparr>)"
  using assms
  by (subst doCheck_walk.simps) (simp add: getDeltaTime_def getTicks_ms_def)

lemma doCheck_walk_lagging:
  assumes "i < length (waitBuffer self)"
    and "waitBuffer self ! i = (event_code, argCount, timeStamp)"
    and "ticks self (ticks_calls self) - timeStamp \<le> 2000"
    and "length (inBuffer self) < argCount"
  shows "doCheck_walk i result self =
           (Inr result, self\<lparr>ticks_calls := Suc (ticks_calls self)\<rparr>)"
  using assms
  by (subst doCheck_walk.simps) (simp add: getDeltaTime_def getTicks_ms_def)

lemma doCheck_walk_event:
  assumes "i < length (waitBuffer self)"
    and "waitBuffer self ! i = (event_code, argCount, timeStamp)"
    and "ticks self (ticks_calls self) - timeStamp \<le> 2000"
    and "argCount \<le> length (inBuffer self)"
    and "doCheck_process event_code (take argCount (inBuffer self)) = Inr (Some args)"
  shows "doCheck_walk i result self =
           doCheck_walk (i + 1) (result @ [(event_code, args)])
             (self\<lparr>ticks_calls := Suc (ticks_calls self),
                   inBuffer := drop argCount (inBuffer self)\<rparr>)"
  using assms
  by (subst doCheck_walk.simps) (simp add: getDeltaTime_def getTicks_ms_def Let_def)

text \<open>
  With nothing expired in front of them, a click request and a request of one
  value behind it get the first two waiting values and the third one, in that
  order.
\<close>

lemma doCheck_walk_two_then_one:
  assumes w: "waitBuffer self = [(CLICK, 2, t1), (event_code, 1, t2)]"
    and k: "event_code \<noteq> CLICK"
    and b: "inBuffer self = x # y # z # rest"
    and f1: "ticks self (ticks_calls self) - t1 \<le> 2000"
    and f2: "ticks self (Suc (ticks_calls self)) - t2 \<le> 2000"
    and touch: "x \<le> 1000"
  shows "\<exists>args self1.
           doCheck_process event_code [z] = Inr (Some args) \<and> last args = Raw z \<and>
           doCheck_walk 0 [] self = (Inr [(CLICK, [Raw x, Raw y]), (event_code, args)], self1) \<and>
           inBuffer self1 = rest \<and> waitBuffer self1 = waitBuffer self"
proof -
  obtain args where p: "doCheck_process event_code [z] = Inr (Some args)" and l: "last args = Raw z"
    using k by (cases event_code) (simp_all add: doCheck_process_def)
  let ?s1 = "self\<lparr>ticks_calls := Suc (ticks_calls self), inBuffer := drop 2 (inBuffer self)\<rparr>"
  have c: "doCheck_process CLICK [x, y] = Inr (Some [Raw x, Raw y])"
    using touch by (simp add: doCheck_process_def)
  have "doCheck_walk 0 [] self = doCheck_walk (0 + 1) ([] @ [(CLICK, [Raw x, Raw y])]) ?s1"
    by (rule doCheck_walk_event [where timeStamp = t1]) (simp_all add: w b f1 c)
  also have "\<dots> = doCheck_walk (1 + 1) ([(CLICK, [Raw x, Raw y])] @ [(event_code, args)])
       (?s1\<lparr>ticks_calls := Suc (ticks_calls ?s1), inBuffer := drop 1 (inBuffer ?s1)\<rparr>)"
    unfolding add_0 append_Nil
    by (rule doCheck_walk_event [where timeStamp = t2]) (simp_all add: w b f2 p)
  also have "\<dots> = (Inr ([(CLICK, [Raw x, Raw y])] @ [(event_code, args)]),
       ?s1\<lparr>ticks_calls := Suc (ticks_calls ?s1), inBuffer := drop 1 (inBuffer ?s1)\<rparr>)"
    by (rule doCheck_walk_done) (simp add: w)
  finally show ?thesis using p l b by simp
qed

end
